theory Spec2Isabelle
  imports Main
begin

unbundle bit_operations_syntax

section \<open>Python integers and their shift operators\<close>

text \<open>
  The notebook works on Python's unbounded integers, modelled as \<open>int\<close>. On these
  \<open>&\<close>, \<open>|\<close> and \<open>~\<close> act on the infinite two's complement representation, which is
  what \<open>AND\<close>, \<open>OR\<close> and \<open>NOT\<close> do on \<open>int\<close>; \<open>%\<close> with a positive divisor returns a
  non-negative remainder, as \<open>mod\<close> does. The shift operators raise \<open>ValueError\<close>
  ("negative shift count") when the count is negative; otherwise \<open>x << k\<close> is
  \<open>x * 2 ^ k\<close> and \<open>x >> k\<close> is the floor of \<open>x / 2 ^ k\<close>.
\<close>

datatype error = ValueError

definition lshift :: "int \<Rightarrow> int \<Rightarrow> error + int" where
  "lshift x k = (if k < 0 then Inl ValueError else Inr (push_bit (nat k) x))"

definition rshift :: "int \<Rightarrow> int \<Rightarrow> error + int" where
  "rshift x k = (if k < 0 then Inl ValueError else Inr (drop_bit (nat k) x))"

section \<open>Task 1: binary representations\<close>

text \<open>
  \<^verbatim>\<open>
  def rotl(x, n=1):
      n %= 32
      return ((x << n) | (x >> (32 - n))) & 0xFFFFFFFF
  \<close>
\<close>

definition rotl :: "int \<Rightarrow> int \<Rightarrow> error + int" where
  "rotl x n =
     (let n = n mod 32 in
      case lshift x n of
        Inl e \<Rightarrow> Inl e
      | Inr a \<Rightarrow>
          (case rshift x (32 - n) of
             Inl e \<Rightarrow> Inl e
           | Inr b \<Rightarrow> Inr ((a OR b) AND 0xFFFFFFFF)))"

text \<open>
  \<^verbatim>\<open>
  def rotr(x, n=1):
      n %= 32
      return ((x >> n) | (x << (32 - n))) & 0xFFFFFFFF
  \<close>
\<close>

definition rotr :: "int \<Rightarrow> int \<Rightarrow> error + int" where
  "rotr x n =
     (let n = n mod 32 in
      case rshift x n of
        Inl e \<Rightarrow> Inl e
      | Inr a \<Rightarrow>
          (case lshift x (32 - n) of
             Inl e \<Rightarrow> Inl e
           | Inr b \<Rightarrow> Inr ((a OR b) AND 0xFFFFFFFF)))"

text \<open>
  \<^verbatim>\<open>
  def ch(x, y, z):
      return (x & y) | ((~x) & z)
  \<close>
\<close>

definition ch :: "int \<Rightarrow> int \<Rightarrow> int \<Rightarrow> int" where
  "ch x y z = (x AND y) OR ((NOT x) AND z)"

text \<open>
  \<^verbatim>\<open>
  def maj(x, y, z):
      return (x & y) | (x & z) | (y & z)
  \<close>
\<close>

definition maj :: "int \<Rightarrow> int \<Rightarrow> int \<Rightarrow> int" where
  "maj x y z = (x AND y) OR (x AND z) OR (y AND z)"

section \<open>Task 2: the hash function\<close>

text \<open>
  A Python string is a sequence of Unicode code points; a character is modelled by its
  code point, and \<open>ord\<close> reads it as an integer.
\<close>

type_synonym pychar = nat

definition ord :: "pychar \<Rightarrow> int" where
  "ord c = int c"

text \<open>
  \<^verbatim>\<open>
  def hash_function(s):
      hashval = 0
      for c in s:
          hashval = ord(c) + 31 * hashval
      return hashval % 101
  \<close>
  The loop is the recursion \<open>hash_loop\<close> over the characters still to be read, with
  \<open>hashval\<close> as its state.
\<close>

fun hash_loop :: "int \<Rightarrow> pychar list \<Rightarrow> int" where
  "hash_loop hashval [] = hashval"
| "hash_loop hashval (c # s) = hash_loop (ord c + 31 * hashval) s"

definition hash_function :: "pychar list \<Rightarrow> int" where
  "hash_function s = hash_loop 0 s mod 101"

text \<open>
  The hash as the specification words it: an accumulator starting at 0, updated with
  \<open>c + 31 * accumulator\<close> for each character code from left to right, and reduced
  modulo 101 at the end.
\<close>

definition spec_hash :: "pychar list \<Rightarrow> int" where
  "spec_hash s = foldl (\<lambda>accumulator c. ord c + 31 * accumulator) 0 s mod 101"

section \<open>Notions of the specification\<close>

text \<open>A word in the sense of the specification: an integer in \<open>[0, 2^32)\<close>.\<close>

definition is_word :: "int \<Rightarrow> bool" where
  "is_word x \<longleftrightarrow> 0 \<le> x \<and> x < 2 ^ 32"

text \<open>
  The choice function as the specification words it: \<open>(x & y) | (~x & z)\<close> with the
  complement masked to 32 bits. The notebook's \<open>ch\<close> has no such mask.
\<close>

definition spec_ch :: "int \<Rightarrow> int \<Rightarrow> int \<Rightarrow> int" where
  "spec_ch x y z = (x AND y) OR (((NOT x) AND 0xFFFFFFFF) AND z)"

text \<open>The number of words among \<open>x\<close>, \<open>y\<close>, \<open>z\<close> that have bit \<open>i\<close> set.\<close>

definition votes :: "nat \<Rightarrow> int \<Rightarrow> int \<Rightarrow> int \<Rightarrow> nat" where
  "votes i x y z = length (filter (\<lambda>w. bit w i) [x, y, z])"

text \<open>
  The 32-bit pattern of \<open>x\<close> rotated by \<open>k\<close> places, for a count already reduced to
  \<open>0 \<le> k < 32\<close>: the values that \<open>rotl\<close> and \<open>rotr\<close> are shown to return.
\<close>

definition rol :: "nat \<Rightarrow> int \<Rightarrow> int" where
  "rol k x = take_bit 32 (push_bit k x OR drop_bit (32 - k) x)"

definition ror :: "nat \<Rightarrow> int \<Rightarrow> int" where
  "ror k x = take_bit 32 (drop_bit k x OR push_bit (32 - k) x)"

section \<open>Words and their bits\<close>

lemma mask32: "(0xFFFFFFFF::int) = mask 32"
  by (simp add: mask_eq_exp_minus_1)

lemma is_word_take_bit: "is_word x \<longleftrightarrow> take_bit 32 x = x"
  unfolding is_word_def by (simp add: take_bit_int_eq_self_iff)

lemma is_word_bit:
  assumes "is_word x" and "bit x i"
  shows "i < 32"
proof -
  from assms(1) have "take_bit 32 x = x" by (simp add: is_word_take_bit)
  with assms(2) have "bit (take_bit 32 x) i" by simp
  then show ?thesis by (simp add: bit_take_bit_iff)
qed

lemma is_word_and_right: "is_word z \<Longrightarrow> is_word (w AND z)"
  unfolding is_word_def using AND_upper2 [of z w] by (simp add: order_le_less_trans)

lemma is_word_and_left: "is_word z \<Longrightarrow> is_word (z AND w)"
  unfolding is_word_def using AND_upper1 [of z w] by (simp add: order_le_less_trans)

lemma is_word_or: "is_word a \<Longrightarrow> is_word b \<Longrightarrow> is_word (a OR b)"
  unfolding is_word_take_bit by (simp add: take_bit_or)

lemma mod32_range:
  "0 \<le> (n::int) mod 32" "n mod 32 < 32" "\<not> 32 < n mod 32" "\<not> n mod 32 < 0"
  "nat (n mod 32) < 32"
proof -
  show "0 \<le> n mod 32" by simp
  show less: "n mod 32 < 32" by simp
  from less show "\<not> 32 < n mod 32" by linarith
  show "\<not> n mod 32 < 0" by simp
  from less show "nat (n mod 32) < 32" by linarith
qed

section \<open>The rotations never raise\<close>

text \<open>
  After \<open>n %= 32\<close> both shift counts, \<open>n\<close> and \<open>32 - n\<close>, are non-negative, so neither
  shift raises, and the final mask is a truncation to 32 bits.
\<close>

lemma rotl_rol: "rotl x n = Inr (rol (nat (n mod 32)) x)"
  by (simp add: rotl_def lshift_def rshift_def rol_def mask32 Let_def nat_diff_distrib
      mod32_range flip: take_bit_eq_mask)

lemma rotr_ror: "rotr x n = Inr (ror (nat (n mod 32)) x)"
  by (simp add: rotr_def lshift_def rshift_def ror_def mask32 Let_def nat_diff_distrib
      mod32_range flip: take_bit_eq_mask)

lemma is_word_rol: "is_word (rol k x)"
  by (simp add: is_word_take_bit rol_def)

lemma is_word_ror: "is_word (ror k x)"
  by (simp add: is_word_take_bit ror_def)

section \<open>The bits of a rotated word\<close>

lemma bit_rol:
  assumes "is_word x" "k < 32"
  shows "bit (rol k x) i \<longleftrightarrow>
         i < 32 \<and> (if k \<le> i then bit x (i - k) else bit x (32 - k + i))"
proof (cases "k \<le> i")
  case True
  have "\<not> bit x (32 - k + i)"
    using is_word_bit [OF assms(1), of "32 - k + i"] True by auto
  then show ?thesis using True unfolding rol_def
    by (simp only: bit_take_bit_iff bit_or_iff bit_push_bit_iff bit_drop_bit_eq) simp
next
  case False
  then show ?thesis unfolding rol_def
    by (simp only: bit_take_bit_iff bit_or_iff bit_push_bit_iff bit_drop_bit_eq) simp
qed

lemma bit_ror:
  assumes "is_word x" "k < 32"
  shows "bit (ror k x) i \<longleftrightarrow>
         i < 32 \<and> (if i + k < 32 then bit x (k + i) else bit x (i - (32 - k)))"
proof (cases "i + k < 32")
  case True
  then show ?thesis unfolding ror_def
    by (simp only: bit_take_bit_iff bit_or_iff bit_push_bit_iff bit_drop_bit_eq) auto
next
  case False
  have "\<not> bit x (k + i)"
    using is_word_bit [OF assms(1), of "k + i"] False by auto
  then show ?thesis using False unfolding ror_def
    by (simp only: bit_take_bit_iff bit_or_iff bit_push_bit_iff bit_drop_bit_eq) auto
qed

lemma ror_rol:
  assumes "is_word x" "k < 32"
  shows "ror k (rol k x) = x"
proof (rule bit_eqI)
  fix i
  show "bit (ror k (rol k x)) i = bit x i"
  proof (cases "i < 32")
    case False
    then show ?thesis using is_word_bit [OF assms(1), of i]
      by (auto simp add: bit_ror [OF is_word_rol assms(2)])
  next
    case small: True
    show ?thesis
    proof (cases "i + k < 32")
      case True
      then show ?thesis using small
        by (simp add: bit_ror [OF is_word_rol assms(2)] bit_rol [OF assms])
    next
      case False
      then have "i - (32 - k) < k" "32 - k + (i - (32 - k)) = i" "i - (32 - k) < 32"
        using small assms(2) by simp_all
      then show ?thesis using small False
        by (simp add: bit_ror [OF is_word_rol assms(2)] bit_rol [OF assms])
    qed
  qed
qed

lemma rol_ror:
  assumes "is_word x" "k < 32"
  shows "rol k (ror k x) = x"
proof (rule bit_eqI)
  fix i
  show "bit (rol k (ror k x)) i = bit x i"
  proof (cases "i < 32")
    case False
    then show ?thesis using is_word_bit [OF assms(1), of i]
      by (auto simp add: bit_rol [OF is_word_ror assms(2)])
  next
    case small: True
    show ?thesis
    proof (cases "k \<le> i")
      case True
      then have "i - k + k < 32" "k + (i - k) = i" "i - k < 32" using small by simp_all
      then show ?thesis using small True
        by (simp add: bit_rol [OF is_word_ror assms(2)] bit_ror [OF assms])
    next
      case False
      then have "\<not> 32 - k + i + k < 32" "32 - k + i - (32 - k) = i" "32 - k + i < 32"
        using small assms(2) by simp_all
      then show ?thesis using small False
        by (simp add: bit_rol [OF is_word_ror assms(2)] bit_ror [OF assms])
    qed
  qed
qed

lemma rol_0: "is_word x \<Longrightarrow> rol 0 x = x"
  by (rule bit_eqI) (auto simp add: bit_rol dest: is_word_bit)

lemma ror_0: "is_word x \<Longrightarrow> ror 0 x = x"
  by (rule bit_eqI) (auto simp add: bit_ror dest: is_word_bit)

section \<open>Choice and majority, bit by bit\<close>

lemma bit_ch: "bit (ch x y z) i = (if bit x i then bit y i else bit z i)"
  by (simp add: ch_def bit_or_iff bit_and_iff bit_not_iff)

lemma ch_spec_ch: "is_word z \<Longrightarrow> ch x y z = spec_ch x y z"
  by (rule bit_eqI)
    (auto simp add: ch_def spec_ch_def mask32 bit_or_iff bit_and_iff bit_not_iff bit_mask_iff
      dest: is_word_bit)

lemma is_word_ch: "is_word y \<Longrightarrow> is_word z \<Longrightarrow> is_word (ch x y z)"
  unfolding ch_def by (intro is_word_or is_word_and_right)

lemma ch_zero: "ch 0 y z = z"
  by (simp add: ch_def)

lemma ch_ones: "is_word y \<Longrightarrow> is_word z \<Longrightarrow> ch 0xFFFFFFFF y z = y"
  by (rule bit_eqI)
    (auto simp add: ch_def mask32 bit_or_iff bit_and_iff bit_not_iff bit_mask_iff
      dest: is_word_bit)

lemma bit_maj: "bit (maj x y z) i \<longleftrightarrow> 2 \<le> votes i x y z"
  by (simp add: maj_def votes_def bit_or_iff bit_and_iff)

lemma maj_same: "maj x x z = x"
  by (rule bit_eqI) (auto simp add: maj_def bit_or_iff bit_and_iff)

lemma is_word_maj: "is_word x \<Longrightarrow> is_word y \<Longrightarrow> is_word z \<Longrightarrow> is_word (maj x y z)"
  unfolding maj_def by (intro is_word_or is_word_and_right)

section \<open>The hash loop is a left fold\<close>

lemma hash_loop_foldl:
  "hash_loop h s = foldl (\<lambda>accumulator c. ord c + 31 * accumulator) h s"
  by (induction s arbitrary: h) simp_all

section \<open>The claims of the specification\<close>

text \<open>
  C1. For all 32-bit \<open>x\<close>, \<open>y\<close>, \<open>z\<close>, \<open>ch(x, y, z)\<close> is the word whose bit \<open>i\<close> is bit \<open>i\<close>
  of \<open>y\<close> where bit \<open>i\<close> of \<open>x\<close> is 1 and bit \<open>i\<close> of \<open>z\<close> otherwise; it equals
  \<open>(x & y) | (~x & z)\<close> with the complement masked to 32 bits (the notebook applies no
  mask, and on 32-bit \<open>z\<close> none is needed); \<open>ch(0, y, z) = z\<close> and
  \<open>ch(0xFFFFFFFF, y, z) = y\<close>.
\<close>

theorem ch_selects:
  assumes "is_word x" "is_word y" "is_word z"
  shows "ch x y z = spec_ch x y z \<and> is_word (ch x y z)
       \<and> bit (ch x y z) i = (if bit x i then bit y i else bit z i)
       \<and> ch 0 y z = z \<and> ch 0xFFFFFFFF y z = y"
proof (intro conjI)
  show "ch x y z = spec_ch x y z" using assms(3) by (rule ch_spec_ch)
  show "is_word (ch x y z)" using assms(2,3) by (rule is_word_ch)
  show "bit (ch x y z) i = (if bit x i then bit y i else bit z i)" by (rule bit_ch)
  show "ch 0 y z = z" by (rule ch_zero)
  show "ch 0xFFFFFFFF y z = y" using assms(2,3) by (rule ch_ones)
qed

theorem ch_selects_witness:
  "is_word 0xFF00FF00 \<and> is_word 0xAAAAAAAA \<and> is_word 0x55555555
   \<and> ch 0xFF00FF00 0xAAAAAAAA 0x55555555 = spec_ch 0xFF00FF00 0xAAAAAAAA 0x55555555
   \<and> is_word (ch 0xFF00FF00 0xAAAAAAAA 0x55555555)
   \<and> bit (ch 0xFF00FF00 0xAAAAAAAA 0x55555555) 8
       = (if bit (0xFF00FF00::int) 8 then bit (0xAAAAAAAA::int) 8 else bit (0x55555555::int) 8)
   \<and> ch 0 0xAAAAAAAA 0x55555555 = 0x55555555
   \<and> ch 0xFFFFFFFF 0xAAAAAAAA 0x55555555 = 0xAAAAAAAA"
proof -
  have x: "is_word 0xFF00FF00" and y: "is_word 0xAAAAAAAA" and z: "is_word 0x55555555"
    by (simp_all add: is_word_def)
  from ch_selects [OF x y z, of 8] x y z show ?thesis by blast
qed

text \<open>
  C2. For every character sequence \<open>s\<close>, \<open>hash_function(s)\<close> is the value obtained from an
  unbounded accumulator that starts at 0, becomes \<open>ord(c) + 31 * accumulator\<close> for each
  character \<open>c\<close> from left to right, and is reduced modulo 101 at the end; the result
  lies in \<open>[0, 100]\<close>, and the hash of the empty sequence is 0.
\<close>

theorem hash_function_spec:
  "hash_function s = spec_hash s \<and> 0 \<le> hash_function s \<and> hash_function s \<le> 100
   \<and> hash_function [] = 0"
  by (simp add: hash_function_def spec_hash_def hash_loop_foldl)

text \<open>
  C3. For every 32-bit \<open>x\<close> and every \<open>n\<close> with \<open>0 \<le> n \<le> 31\<close>, \<open>rotl(x, n)\<close> returns a
  value that \<open>rotr(_, n)\<close> takes back to \<open>x\<close>, and \<open>rotr(x, n)\<close> returns a value that
  \<open>rotl(_, n)\<close> takes back to \<open>x\<close>: the two rotations are mutual inverses.
\<close>

theorem rot_inverse:
  assumes "is_word x" "0 \<le> n" "n \<le> 31"
  shows "(\<exists>y. rotl x n = Inr y \<and> rotr y n = Inr x)
       \<and> (\<exists>y. rotr x n = Inr y \<and> rotl y n = Inr x)"
  using assms(1) by (simp add: rotl_rol rotr_ror ror_rol rol_ror mod32_range)

theorem rot_inverse_witness:
  "is_word 0x12345678 \<and> (0::int) \<le> 4 \<and> (4::int) \<le> 31
   \<and> (\<exists>y. rotl 0x12345678 4 = Inr y \<and> rotr y 4 = Inr 0x12345678)
   \<and> (\<exists>y. rotr 0x12345678 4 = Inr y \<and> rotl y 4 = Inr 0x12345678)"
proof -
  have x: "is_word 0x12345678" by (simp add: is_word_def)
  have lo: "(0::int) \<le> 4" and hi: "(4::int) \<le> 31" by simp_all
  from rot_inverse [OF x lo hi] x show ?thesis by simp
qed

text \<open>
  C4. For every \<open>x\<close> (32-bit or not) and every integer \<open>n\<close>, negative and oversized ones
  included, \<open>rotl(x, n)\<close> returns a value, never an error, and it is what
  \<open>rotl(x, n mod 32)\<close> returns.
\<close>

theorem rotl_mod32: "rotl x n = rotl x (n mod 32) \<and> (\<exists>r. rotl x n = Inr r)"
  by (simp add: rotl_rol)

text \<open>
  C5. On 32-bit inputs (and any integer rotation count), \<open>rotl\<close>, \<open>rotr\<close>, \<open>ch\<close> and \<open>maj\<close>
  each return a value in \<open>[0, 2^32)\<close>.
\<close>

theorem word_results:
  assumes "is_word x" "is_word y" "is_word z"
  shows "(\<exists>r. rotl x n = Inr r \<and> 0 \<le> r \<and> r < 2 ^ 32)
       \<and> (\<exists>r. rotr x n = Inr r \<and> 0 \<le> r \<and> r < 2 ^ 32)
       \<and> 0 \<le> ch x y z \<and> ch x y z < 2 ^ 32
       \<and> 0 \<le> maj x y z \<and> maj x y z < 2 ^ 32"
  using is_word_ch [OF assms(2,3)] is_word_maj [OF assms]
    is_word_rol [of "nat (n mod 32)" x] is_word_ror [of "nat (n mod 32)" x]
  by (simp add: rotl_rol rotr_ror is_word_def)

theorem word_results_witness:
  "is_word 0xFF00FF00 \<and> is_word 0xAAAAAAAA \<and> is_word 0x55555555
   \<and> (\<exists>r. rotl 0xFF00FF00 (- 3) = Inr r \<and> 0 \<le> r \<and> r < 2 ^ 32)
   \<and> (\<exists>r. rotr 0xFF00FF00 (- 3) = Inr r \<and> 0 \<le> r \<and> r < 2 ^ 32)
   \<and> 0 \<le> ch 0xFF00FF00 0xAAAAAAAA 0x55555555
   \<and> ch 0xFF00FF00 0xAAAAAAAA 0x55555555 < 2 ^ 32
   \<and> 0 \<le> maj 0xFF00FF00 0xAAAAAAAA 0x55555555
   \<and> maj 0xFF00FF00 0xAAAAAAAA 0x55555555 < 2 ^ 32"
proof -
  have x: "is_word 0xFF00FF00" and y: "is_word 0xAAAAAAAA" and z: "is_word 0x55555555"
    by (simp_all add: is_word_def)
  from word_results [OF x y z, of "- 3"] x y z show ?thesis by simp
qed

text \<open>
  C6. Bit \<open>i\<close> of \<open>maj(x, y, z)\<close>, which is \<open>(x & y) | (x & z) | (y & z)\<close>, is 1 exactly when
  at least two of \<open>x\<close>, \<open>y\<close>, \<open>z\<close> have bit \<open>i\<close> set; and \<open>maj(x, x, z) = x\<close>.
\<close>

theorem maj_majority:
  "maj x y z = (x AND y) OR (x AND z) OR (y AND z)
   \<and> bit (maj x y z) i = (2 \<le> votes i x y z) \<and> maj x x z = x"
proof (intro conjI)
  show "maj x y z = (x AND y) OR (x AND z) OR (y AND z)" by (simp add: maj_def)
  show "bit (maj x y z) i = (2 \<le> votes i x y z)" by (rule bit_maj)
  show "maj x x z = x" by (rule maj_same)
qed

text \<open>
  C7. \<open>maj\<close> returns the same value under each of the five reorderings of its arguments;
  \<open>ch\<close> does not: there are 32-bit inputs on which each of the five reorderings of the
  arguments of \<open>ch\<close> changes the result.
\<close>

theorem maj_symmetric_ch_not:
  "maj x y z = maj x z y \<and> maj x y z = maj y x z \<and> maj x y z = maj y z x
   \<and> maj x y z = maj z x y \<and> maj x y z = maj z y x
   \<and> (\<exists>a b c. is_word a \<and> is_word b \<and> is_word c
        \<and> ch a b c \<noteq> ch a c b \<and> ch a b c \<noteq> ch b a c \<and> ch a b c \<noteq> ch b c a
        \<and> ch a b c \<noteq> ch c a b \<and> ch a b c \<noteq> ch c b a)"
proof -
  have "is_word 7 \<and> is_word 2 \<and> is_word 1
        \<and> ch 7 2 1 \<noteq> ch 7 1 2 \<and> ch 7 2 1 \<noteq> ch 2 7 1 \<and> ch 7 2 1 \<noteq> ch 2 1 7
        \<and> ch 7 2 1 \<noteq> ch 1 7 2 \<and> ch 7 2 1 \<noteq> ch 1 2 7"
    by (simp add: is_word_def ch_def)
  then have "\<exists>a b c. is_word a \<and> is_word b \<and> is_word c
        \<and> ch a b c \<noteq> ch a c b \<and> ch a b c \<noteq> ch b a c \<and> ch a b c \<noteq> ch b c a
        \<and> ch a b c \<noteq> ch c a b \<and> ch a b c \<noteq> ch c b a"
    by blast
  moreover have "maj x y z = maj x z y" "maj x y z = maj y x z" "maj x y z = maj y z x"
    "maj x y z = maj z x y" "maj x y z = maj z y x"
    by (simp_all add: maj_def ac_simps)
  ultimately show ?thesis by simp
qed

text \<open>
  C8. For every 32-bit \<open>x\<close>, rotating by zero or by a full circle returns \<open>x\<close>:
  \<open>rotl(x, 0) = x\<close>, \<open>rotr(x, 0) = x\<close> and \<open>rotl(x, 32) = x\<close>.
\<close>

theorem rot_identity:
  assumes "is_word x"
  shows "rotl x 0 = Inr x \<and> rotr x 0 = Inr x \<and> rotl x 32 = Inr x"
  using assms by (simp add: rotl_rol rotr_ror rol_0 ror_0)

theorem rot_identity_witness:
  "is_word 0x12345678 \<and> rotl 0x12345678 0 = Inr 0x12345678
   \<and> rotr 0x12345678 0 = Inr 0x12345678 \<and> rotl 0x12345678 32 = Inr 0x12345678"
proof -
  have x: "is_word 0x12345678" by (simp add: is_word_def)
  from rot_identity [OF x] x show ?thesis by simp
qed

text \<open>
  C9. The literal test vectors: \<open>rotl(0x12345678, 4) = 0x23456781\<close>,
  \<open>rotl(0x12345678, 16) = 0x56781234\<close>, \<open>rotr(0x12345678, 4) = 0x81234567\<close>,
  \<open>rotr(0x12345678, 16) = 0x56781234\<close>,
  \<open>ch(0xFF00FF00, 0xAAAAAAAA, 0x55555555) = 0xAA55AA55\<close> and
  \<open>maj(0xFF00FF00, 0xAAAAAAAA, 0x55555555) = 0xFF00FF00\<close>.
\<close>

theorem test_vectors:
  "rotl 0x12345678 4 = Inr 0x23456781 \<and> rotl 0x12345678 16 = Inr 0x56781234
   \<and> rotr 0x12345678 4 = Inr 0x81234567 \<and> rotr 0x12345678 16 = Inr 0x56781234
   \<and> ch 0xFF00FF00 0xAAAAAAAA 0x55555555 = 0xAA55AA55
   \<and> maj 0xFF00FF00 0xAAAAAAAA 0x55555555 = 0xFF00FF00"
  by (simp add: rotl_def rotr_def lshift_def rshift_def ch_def maj_def)

text \<open>
  C10. For every integer \<open>x\<close>, negative or wider than 32 bits included, and every integer
  \<open>n\<close>, \<open>rotl(x, n)\<close> and \<open>rotr(x, n)\<close> return a value in \<open>[0, 2^32)\<close>.
\<close>

theorem rot_any_integer:
  "(\<exists>r. rotl x n = Inr r \<and> 0 \<le> r \<and> r < 2 ^ 32)
   \<and> (\<exists>r. rotr x n = Inr r \<and> 0 \<le> r \<and> r < 2 ^ 32)"
  using is_word_rol [of "nat (n mod 32)" x] is_word_ror [of "nat (n mod 32)" x]
  by (simp add: rotl_rol rotr_ror is_word_def)

end
